theory Spec2Isabelle
  imports Main
begin

section \<open>awsfabrictasks.ec2.api: settings and instance identifiers\<close>

text \<open>
  The module reads \<^verbatim>\<open>awsfab_settings.DEFAULT_REGION\<close>; the settings object is a
  parameter of every function that reads it.
\<close>

record awsfab_settings =
  DEFAULT_REGION :: string

text \<open>
  A name of the source that starts with an underscore is written with the prefix
  \<open>private_\<close>. \<^verbatim>\<open>_parse_instanceident\<close>: when the string holds a colon,
  \<^verbatim>\<open>split(':', 1)\<close> cuts it at the first colon into exactly two parts; otherwise the
  whole string is the identifier and the region is the configured default.
\<close>

definition private_parse_instanceident :: "awsfab_settings \<Rightarrow> string \<Rightarrow> string \<times> string" where
  "private_parse_instanceident st instanceid_with_optional_region =
     (if CHR '':'' \<in> set instanceid_with_optional_region
      then (takeWhile (\<lambda>c. c \<noteq> CHR '':'') instanceid_with_optional_region,
            drop 1 (dropWhile (\<lambda>c. c \<noteq> CHR '':'') instanceid_with_optional_region))
      else (DEFAULT_REGION st, instanceid_with_optional_region))"

definition parse_instanceid :: "awsfab_settings \<Rightarrow> string \<Rightarrow> string \<times> string" where
  "parse_instanceid st instanceid_with_optional_region =
     private_parse_instanceident st instanceid_with_optional_region"

definition parse_instancename :: "awsfab_settings \<Rightarrow> string \<Rightarrow> string \<times> string" where
  "parse_instancename st instancename_with_optional_region =
     private_parse_instanceident st instancename_with_optional_region"

section \<open>The EC2 collaborator and the process state\<close>

text \<open>
  Of a \<^verbatim>\<open>boto.ec2.instance.Instance\<close> the modelled code reads \<^verbatim>\<open>id\<close> and \<^verbatim>\<open>state\<close>;
  a reservation holds a list of instances.
\<close>

record ec2_instance =
  inst_id :: string
  inst_state :: string

record reservation =
  instances :: "ec2_instance list"

text \<open>
  The keyword arguments \<^verbatim>\<open>self.kw\<close> built by \<^verbatim>\<open>_configure\<close>, and the keys of a
  configuration dict that the modelled code reads; a key that is absent is \<open>None\<close>.
\<close>

record launch_kw =
  key_name :: string
  instance_type :: string
  security_groups :: "string list"
  placement :: "string option"

record launch_conf =
  conf_region :: "string option"
  conf_ami :: "string option"
  conf_tags :: "(string \<rightharpoonup> string) option"

text \<open>
  The exceptions that the module and the calls it makes raise. A \<^verbatim>\<open>LookupError\<close> carries
  which lookup failed, a \<^verbatim>\<open>WaitForStateError\<close> the state name and the seconds that its
  message gives; \<open>EC2ResponseError\<close> is an exception of the EC2 collaborator.
\<close>

datatype lookup_failure =
    NoInstancesWithInstanceid string
  | NotExactlyOneInstanceWithInstanceid string
  | NoInstancesWithTags

datatype error =
    Ec2RegionConnectionError "string option"
  | LookupError lookup_failure
  | WaitForStateError string int
  | IndexError
  | KeyError string
  | AttributeError
  | IOError
  | EOFError
  | SystemExit
  | EC2ResponseError

text \<open>
  A connection answers \<^verbatim>\<open>get_all_instances\<close> (by instance ids or by filters) and
  \<^verbatim>\<open>run_instances\<close>; either may raise. \<^verbatim>\<open>connect_to_region\<close> returns \<^verbatim>\<open>None\<close> for a
  region it cannot connect to. The cloud changes while the process runs: the
  \<open>t\<close>-th call of \<^verbatim>\<open>connect_to_region\<close> made by the process sees \<open>cloud env t\<close>.
\<close>

datatype query = ByInstanceIds "string list" | ByFilters "string \<rightharpoonup> string"

record connection =
  get_all_instances :: "query \<Rightarrow> error + reservation list"
  run_instances :: "string \<Rightarrow> launch_kw \<Rightarrow> error + reservation"

record env =
  settings :: awsfab_settings
  cloud :: "nat \<Rightarrow> string option \<Rightarrow> connection option"

text \<open>
  What \<^verbatim>\<open>prettyformat\<close> renders with \<^verbatim>\<open>pformat\<close>: the keyword arguments, the merged
  tags, and the \<^verbatim>\<open>Name\<close> tag when there is one.
\<close>

record pretty =
  pretty_kw :: launch_kw
  pretty_tags :: "string \<rightharpoonup> string"
  pretty_name :: "string option"

text \<open>What the process does that can be observed, in the order it does it.\<close>

datatype event =
    Connect "string option"
  | RunInstances string launch_kw
  | AddTags string "string \<rightharpoonup> string"
  | Sleep int
  | PrintWaiting string string int
  | PrintOK
  | PrintNextPoll string nat nat string int
  | PrintFill string nat
  | Print string
  | PrintLauncher pretty
  | Prompt string
  | Abort string

text \<open>
  The state of the process: the number of connections made so far, the events so
  far, the lines waiting on standard input, and the list objects by address.
  \<^verbatim>\<open>wait_for_state\<close> extends its \<^verbatim>\<open>sleep_intervals\<close> argument in place, so the argument
  is the address of a list; the list \<^verbatim>\<open>[15, 5]\<close> created once for the default
  argument lives at \<open>DEFAULT_sleep_intervals\<close>.
\<close>

record world =
  clock :: nat
  log :: "event list"
  stdin :: "string list"
  lists :: "nat \<Rightarrow> int list"

definition DEFAULT_sleep_intervals :: nat where
  "DEFAULT_sleep_intervals = 0"

definition DEFAULT_last_sleep_repeat :: int where
  "DEFAULT_last_sleep_repeat = 40"

definition initial_world :: "string list \<Rightarrow> world" where
  "initial_world input =
     \<lparr>clock = 0, log = [], stdin = input,
      lists = (\<lambda>_. [])(DEFAULT_sleep_intervals := [15, 5])\<rparr>"

definition emit :: "event \<Rightarrow> world \<Rightarrow> world" where
  "emit e w = w\<lparr>log := log w @ [e]\<rparr>"

definition connect_to_region :: "env \<Rightarrow> string option \<Rightarrow> world \<Rightarrow> connection option \<times> world" where
  "connect_to_region env region_name w =
     (cloud env (clock w) region_name, emit (Connect region_name) (w\<lparr>clock := Suc (clock w)\<rparr>))"

text \<open>\<^verbatim>\<open>time.sleep\<close> raises for a negative number of seconds.\<close>

definition sleep :: "int \<Rightarrow> world \<Rightarrow> (error + unit) \<times> world" where
  "sleep secs w = (if secs < 0 then (Inl IOError, w) else (Inr (), emit (Sleep secs) w))"

text \<open>\<^verbatim>\<open>raw_input\<close> prints the prompt and reads one line, without its newline.\<close>

definition raw_input :: "string \<Rightarrow> world \<Rightarrow> (error + string) \<times> world" where
  "raw_input prompt w =
     (case stdin w of
        [] \<Rightarrow> (Inl EOFError, emit (Prompt prompt) w)
      | line # rest \<Rightarrow> (Inr line, (emit (Prompt prompt) w)\<lparr>stdin := rest\<rparr>))"

text \<open>\<^verbatim>\<open>fabric.api.abort\<close> prints the message and raises \<^verbatim>\<open>SystemExit\<close>.\<close>

definition abort :: "string \<Rightarrow> world \<Rightarrow> (error + unit) \<times> world" where
  "abort msg w = (Inl SystemExit, emit (Abort msg) w)"

text \<open>\<^verbatim>\<open>str.lower\<close>: the letters \<^verbatim>\<open>A\<close> to \<^verbatim>\<open>Z\<close> become \<^verbatim>\<open>a\<close> to \<^verbatim>\<open>z\<close>.\<close>

definition lower_char :: "char \<Rightarrow> char" where
  "lower_char c =
     (if 65 \<le> (of_char c :: nat) \<and> (of_char c :: nat) \<le> 90
      then char_of (of_char c + 32 :: nat) else c)"

definition lower :: "string \<Rightarrow> string" where
  "lower s = map lower_char s"

section \<open>Ec2InstanceWrapper: lookups\<close>

definition get_by_instanceid :: "env \<Rightarrow> string \<Rightarrow> world \<Rightarrow> (error + ec2_instance) \<times> world" where
  "get_by_instanceid env instanceid0 w =
     (case parse_instanceid (settings env) instanceid0 of (region, instanceid) \<Rightarrow>
      (case connect_to_region env (Some region) w of (connection, w1) \<Rightarrow>
        (case connection of
           None \<Rightarrow> (Inl (Ec2RegionConnectionError (Some region)), w1)
         | Some c \<Rightarrow>
             (case get_all_instances c (ByInstanceIds [instanceid]) of
                Inl e \<Rightarrow> (Inl e, w1)
              | Inr reservations \<Rightarrow>
                  (case reservations of
                     [] \<Rightarrow> (Inl (LookupError (NoInstancesWithInstanceid instanceid)), w1)
                   | reservation # _ \<Rightarrow>
                       (case instances reservation of
                          [i] \<Rightarrow> (Inr i, w1)
                        | _ \<Rightarrow> (Inl (LookupError
                                  (NotExactlyOneInstanceWithInstanceid instanceid)), w1)))))))"

text \<open>
  \<^verbatim>\<open>get_by_tagvalue\<close>. Line 188 is \<open>region_or_default\<close>: the idiom
  \<^verbatim>\<open>region is None and DEFAULT_REGION or region\<close> gives \<^verbatim>\<open>None\<close> when no region is passed
  and the default region is the empty string. Every tag name gets the prefix
  \<^verbatim>\<open>tag:\<close> to make the filters.
\<close>

definition tag_filters :: "(string \<rightharpoonup> string) \<Rightarrow> (string \<rightharpoonup> string)" where
  "tag_filters tags = (\<lambda>k. if take 4 k = ''tag:'' then tags (drop 4 k) else None)"

definition region_or_default :: "awsfab_settings \<Rightarrow> string option \<Rightarrow> string option" where
  "region_or_default st region =
     (case region of
        None \<Rightarrow> (if DEFAULT_REGION st \<noteq> [] then Some (DEFAULT_REGION st) else None)
      | Some r \<Rightarrow> Some r)"

definition get_by_tagvalue ::
  "env \<Rightarrow> (string \<rightharpoonup> string) \<Rightarrow> string option \<Rightarrow> world \<Rightarrow> (error + ec2_instance list) \<times> world" where
  "get_by_tagvalue env tags region0 w =
     (let region = region_or_default (settings env) region0
      in case connect_to_region env region w of (connection, w1) \<Rightarrow>
        (case connection of
           None \<Rightarrow> (Inl (Ec2RegionConnectionError region), w1)
         | Some c \<Rightarrow>
             (case get_all_instances c (ByFilters (tag_filters tags)) of
                Inl e \<Rightarrow> (Inl e, w1)
              | Inr reservations \<Rightarrow>
                  if length reservations = 0 then (Inl (LookupError NoInstancesWithTags), w1)
                  else (Inr (concat (map instances reservations)), w1))))"

section \<open>wait\_for\_state\<close>

text \<open>
  Line 275: \<^verbatim>\<open>sleep_intervals.extend([sleep_intervals[-1] for x in xrange(last_sleep_repeat)])\<close>.
  The comprehension reads \<^verbatim>\<open>sleep_intervals[-1]\<close> once for each of the
  \<^verbatim>\<open>last_sleep_repeat\<close> rounds (none when that is zero or negative), and reading it
  from an empty list raises \<^verbatim>\<open>IndexError\<close>.
\<close>

definition extend_sleep_intervals :: "int list \<Rightarrow> int \<Rightarrow> error + int list" where
  "extend_sleep_intervals sleep_intervals last_sleep_repeat =
     (if 0 < last_sleep_repeat \<and> sleep_intervals = [] then Inl IndexError
      else Inr (sleep_intervals @ replicate (nat last_sleep_repeat) (last sleep_intervals)))"

text \<open>
  The loop of lines 280 to 288 over the intervals that are left, \<open>index\<close> counting the
  rounds done. \<open>Inr True\<close> is the \<^verbatim>\<open>return\<close> of line 285, \<open>Inr False\<close> is the loop running
  to its end.
\<close>

fun poll :: "env \<Rightarrow> string \<Rightarrow> string \<Rightarrow> nat \<Rightarrow> nat \<Rightarrow> int list \<Rightarrow> world \<Rightarrow> (error + bool) \<times> world" where
  "poll env instanceid state_name sleep_intervals_len index [] w = (Inr False, w)"
| "poll env instanceid state_name sleep_intervals_len index (sleep_sec # rest) w =
     (case get_by_instanceid env instanceid w of
        (Inl e, w1) \<Rightarrow> (Inl e, w1)
      | (Inr instancewrapper, w1) \<Rightarrow>
          (let current_state_name = inst_state instancewrapper in
           if current_state_name = state_name then (Inr True, emit PrintOK w1)
           else
             (let index_n1 = index + 1;
                  w2 = emit (PrintNextPoll current_state_name index_n1 sleep_intervals_len
                               state_name sleep_sec) w1
              in case sleep sleep_sec w2 of
                   (Inl e, w3) \<Rightarrow> (Inl e, w3)
                 | (Inr _, w3) \<Rightarrow>
                     poll env instanceid state_name sleep_intervals_len index_n1 rest w3)))"

definition wait_for_state ::
  "env \<Rightarrow> string \<Rightarrow> string \<Rightarrow> nat \<Rightarrow> int \<Rightarrow> world \<Rightarrow> (error + unit) \<times> world" where
  "wait_for_state env instanceid0 state_name sleep_intervals last_sleep_repeat w =
     (case parse_instanceid (settings env) instanceid0 of (region, instanceid) \<Rightarrow>
       (case extend_sleep_intervals (lists w sleep_intervals) last_sleep_repeat of
          Inl e \<Rightarrow> (Inl e, w)
        | Inr extended \<Rightarrow>
            (let w1 = w\<lparr>lists := (lists w)(sleep_intervals := extended)\<rparr>;
                 max_wait_sec = sum_list extended;
                 w2 = emit (PrintWaiting instanceid state_name max_wait_sec) w1;
                 sleep_intervals_len = length extended
             in case poll env instanceid state_name sleep_intervals_len 0 extended w2 of
                  (Inl e, w3) \<Rightarrow> (Inl e, w3)
                | (Inr True, w3) \<Rightarrow> (Inr (), w3)
                | (Inr False, w3) \<Rightarrow>
                    (Inl (WaitForStateError state_name max_wait_sec), w3))))"

text \<open>
  The keyword arguments that callers forward to \<^verbatim>\<open>wait_for_state\<close>; one that is left
  out takes the default of the signature.
\<close>

record wait_kwargs =
  kw_sleep_intervals :: "nat option"
  kw_last_sleep_repeat :: "int option"

definition wait_for_running_state ::
  "env \<Rightarrow> string \<Rightarrow> wait_kwargs \<Rightarrow> world \<Rightarrow> (error + unit) \<times> world" where
  "wait_for_running_state env instanceid kwargs w =
     wait_for_state env instanceid ''running''
       (case kw_sleep_intervals kwargs of None \<Rightarrow> DEFAULT_sleep_intervals | Some a \<Rightarrow> a)
       (case kw_last_sleep_repeat kwargs of None \<Rightarrow> DEFAULT_last_sleep_repeat | Some n \<Rightarrow> n)
       w"

definition wait_for_stopped_state ::
  "env \<Rightarrow> string \<Rightarrow> wait_kwargs \<Rightarrow> world \<Rightarrow> (error + unit) \<times> world" where
  "wait_for_stopped_state env instanceid kwargs w =
     wait_for_state env instanceid ''stopped''
       (case kw_sleep_intervals kwargs of None \<Rightarrow> DEFAULT_sleep_intervals | Some a \<Rightarrow> a)
       (case kw_last_sleep_repeat kwargs of None \<Rightarrow> DEFAULT_last_sleep_repeat | Some n \<Rightarrow> n)
       w"

section \<open>Ec2LaunchInstance\<close>

record Ec2LaunchInstance =
  extra_tags :: "string \<rightharpoonup> string"
  conf :: launch_conf
  kw :: launch_kw
  instance_attr :: "ec2_instance option"

definition get_all_tags :: "Ec2LaunchInstance \<Rightarrow> error + (string \<rightharpoonup> string)" where
  "get_all_tags self =
     (let tags = Map.empty in
      case conf_tags (conf self) of
        None \<Rightarrow> Inl (KeyError ''tags'')
      | Some t \<Rightarrow> Inr ((tags ++ t) ++ extra_tags self))"

definition prettyformat :: "Ec2LaunchInstance \<Rightarrow> error + pretty" where
  "prettyformat self =
     (case get_all_tags self of
        Inl e \<Rightarrow> Inl e
      | Inr tags \<Rightarrow> Inr \<lparr>pretty_kw = kw self, pretty_tags = tags, pretty_name = tags ''Name''\<rparr>)"

definition private_confirm :: "string \<Rightarrow> world \<Rightarrow> (error + unit) \<times> world" where
  "private_confirm question w =
     (case raw_input (question @ '' [y/N]? '') w of
        (Inl e, w1) \<Rightarrow> (Inl e, w1)
      | (Inr line, w1) \<Rightarrow> if lower line \<noteq> ''y'' then abort ''Aborted'' w1 else (Inr (), w1))"

text \<open>The loop of \<^verbatim>\<open>confirm_many\<close>: a blank line, then the launcher's \<^verbatim>\<open>prettyformat\<close>.\<close>

fun print_launchers :: "Ec2LaunchInstance list \<Rightarrow> world \<Rightarrow> (error + unit) \<times> world" where
  "print_launchers [] w = (Inr (), w)"
| "print_launchers (launcher # rest) w =
     (let w1 = emit (Print []) w in
      case prettyformat launcher of
        Inl e \<Rightarrow> (Inl e, w1)
      | Inr p \<Rightarrow> print_launchers rest (emit (PrintLauncher p) w1))"

definition confirm_many :: "Ec2LaunchInstance list \<Rightarrow> world \<Rightarrow> (error + unit) \<times> world" where
  "confirm_many launchers w =
     (let w1 = emit (PrintFill (''Are you sure you want to launch (create) the following new instances ''
                                @ ''with the following settings and tags?'') 80) w;
          w2 = emit (Print (replicate 80 CHR ''-'')) w1
      in case print_launchers launchers w2 of
           (Inl e, w3) \<Rightarrow> (Inl e, w3)
         | (Inr _, w3) \<Rightarrow>
             private_confirm ''Create instances'' (emit (Print (replicate 80 CHR ''-'')) w3))"

text \<open>
  \<^verbatim>\<open>_add_tags\<close> adds the configuration's tags when the merged tags hold a tag named
  \<^verbatim>\<open>tags\<close>; the calls of \<^verbatim>\<open>add_tag\<close>, made in the dict's order, are one event.
\<close>

definition private_add_tags ::
  "Ec2LaunchInstance \<Rightarrow> ec2_instance \<Rightarrow> world \<Rightarrow> (error + unit) \<times> world" where
  "private_add_tags self inst w =
     (case get_all_tags self of
        Inl e \<Rightarrow> (Inl e, w)
      | Inr tags \<Rightarrow>
          if ''tags'' \<in> dom tags
          then (case conf_tags (conf self) of
                  None \<Rightarrow> (Inl (KeyError ''tags''), w)
                | Some t \<Rightarrow> (Inr (), emit (AddTags (inst_id inst) t) w))
          else (Inr (), w))"

definition run_instance ::
  "env \<Rightarrow> Ec2LaunchInstance \<Rightarrow> world \<Rightarrow> (error + ec2_instance) \<times> Ec2LaunchInstance \<times> world" where
  "run_instance env self w =
     (case conf_region (conf self) of
        None \<Rightarrow> (Inl (KeyError ''region''), self, w)
      | Some region \<Rightarrow>
          (case connect_to_region env (Some region) w of (connection, w1) \<Rightarrow>
             (case connection of
                None \<Rightarrow> (Inl AttributeError, self, w1)
              | Some c \<Rightarrow>
                  (case conf_ami (conf self) of
                     None \<Rightarrow> (Inl (KeyError ''ami''), self, w1)
                   | Some ami \<Rightarrow>
                       (let w2 = emit (RunInstances ami (kw self)) w1 in
                        case run_instances c ami (kw self) of
                          Inl e \<Rightarrow> (Inl e, self, w2)
                        | Inr reservation \<Rightarrow>
                            (case instances reservation of
                               [] \<Rightarrow> (Inl IndexError, self, w2)
                             | inst # _ \<Rightarrow>
                                 (case private_add_tags self inst w2 of
                                    (Inl e, w3) \<Rightarrow> (Inl e, self, w3)
                                  | (Inr _, w3) \<Rightarrow>
                                      (Inr inst, self\<lparr>instance_attr := Some inst\<rparr>, w3))))))))"

text \<open>
  The launchers are objects that \<^verbatim>\<open>run_instance\<close> updates; the loops return the
  launchers as they are afterwards.
\<close>

fun run_many_instances ::
  "env \<Rightarrow> Ec2LaunchInstance list \<Rightarrow> world \<Rightarrow> (error + unit) \<times> Ec2LaunchInstance list \<times> world" where
  "run_many_instances env [] w = (Inr (), [], w)"
| "run_many_instances env (launcher # rest) w =
     (case run_instance env launcher w of
        (Inl e, launcher', w1) \<Rightarrow> (Inl e, launcher' # rest, w1)
      | (Inr _, launcher', w1) \<Rightarrow>
          (case run_many_instances env rest w1 of
             (r, rest', w2) \<Rightarrow> (r, launcher' # rest', w2)))"

text \<open>
  \<^verbatim>\<open>wait_for_running_state_many\<close>: \<^verbatim>\<open>launcher.instance.id\<close> raises \<^verbatim>\<open>AttributeError\<close>
  for a launcher that was not run; an exception of \<^verbatim>\<open>wait_for_running_state\<close> is not
  caught, so it ends the loop.
\<close>

fun wait_for_running_state_many ::
  "env \<Rightarrow> Ec2LaunchInstance list \<Rightarrow> wait_kwargs \<Rightarrow> world \<Rightarrow> (error + unit) \<times> world" where
  "wait_for_running_state_many env [] kwargs w = (Inr (), w)"
| "wait_for_running_state_many env (launcher # rest) kwargs w =
     (case instance_attr launcher of
        None \<Rightarrow> (Inl AttributeError, w)
      | Some i \<Rightarrow>
          (case wait_for_running_state env (inst_id i) kwargs w of
             (Inl e, w1) \<Rightarrow> (Inl e, w1)
           | (Inr _, w1) \<Rightarrow> wait_for_running_state_many env rest kwargs w1))"

text \<open>
  The use of the class that its docstring gives for many instances:
  \<^verbatim>\<open>confirm_many\<close>, then \<^verbatim>\<open>run_many_instances\<close>, then \<^verbatim>\<open>wait_for_running_state_many\<close>,
  on the same launchers.
\<close>

definition launch_many ::
  "env \<Rightarrow> Ec2LaunchInstance list \<Rightarrow> wait_kwargs \<Rightarrow> world
     \<Rightarrow> (error + unit) \<times> Ec2LaunchInstance list \<times> world" where
  "launch_many env launchers kwargs w =
     (case confirm_many launchers w of
        (Inl e, w1) \<Rightarrow> (Inl e, launchers, w1)
      | (Inr _, w1) \<Rightarrow>
          (case run_many_instances env launchers w1 of
             (Inl e, launchers', w2) \<Rightarrow> (Inl e, launchers', w2)
           | (Inr _, launchers', w2) \<Rightarrow>
               (case wait_for_running_state_many env launchers' kwargs w2 of
                  (r, w3) \<Rightarrow> (r, launchers', w3))))"

section \<open>Reading the log\<close>

text \<open>The connections made, the seconds slept and the launch calls, in order.\<close>

fun is_query :: "event \<Rightarrow> bool" where
  "is_query (Connect _) = True"
| "is_query _ = False"

fun is_sleep :: "event \<Rightarrow> bool" where
  "is_sleep (Sleep _) = True"
| "is_sleep _ = False"

fun is_launch :: "event \<Rightarrow> bool" where
  "is_launch (RunInstances _ _) = True"
| "is_launch _ = False"

definition polls_and_sleeps :: "event list \<Rightarrow> event list" where
  "polls_and_sleeps es = filter (\<lambda>e. is_query e \<or> is_sleep e) es"

text \<open>The events that a run from \<open>w\<close> to \<open>w'\<close> added.\<close>

definition new_events :: "world \<Rightarrow> world \<Rightarrow> event list" where
  "new_events w w' = drop (length (log w)) (log w')"

text \<open>
  The connection that a lookup of \<open>instanceid\<close> makes, and the state that a lookup of
  \<open>instanceid\<close> reads when it is the \<open>t\<close>-th connection of the process (or the error
  that it raises).
\<close>

definition lookup_event :: "env \<Rightarrow> string \<Rightarrow> event" where
  "lookup_event env instanceid = Connect (Some (fst (parse_instanceid (settings env) instanceid)))"

definition state_at :: "env \<Rightarrow> string \<Rightarrow> nat \<Rightarrow> error + string" where
  "state_at env instanceid t =
     map_sum id inst_state
       (fst (get_by_instanceid env instanceid
               \<lparr>clock = t, log = [], stdin = [], lists = (\<lambda>_. [])\<rparr>))"

section \<open>Example clouds\<close>

text \<open>
  A connection where every instance asked for by id is in the given state, and that
  launches \<^verbatim>\<open>i-new\<close>; a cloud where instances stay \<^verbatim>\<open>pending\<close>, and one where they are
  \<^verbatim>\<open>running\<close> from the third connection on.
\<close>

definition connection_reporting :: "string \<Rightarrow> connection" where
  "connection_reporting s =
     \<lparr>get_all_instances =
        (\<lambda>q. case q of
                ByInstanceIds ids \<Rightarrow>
                  Inr [\<lparr>instances = map (\<lambda>i. \<lparr>inst_id = i, inst_state = s\<rparr>) ids\<rparr>]
              | ByFilters _ \<Rightarrow> Inr []),
      run_instances =
        (\<lambda>ami k. Inr \<lparr>instances = [\<lparr>inst_id = ''i-new'', inst_state = ''pending''\<rparr>]\<rparr>)\<rparr>"

definition stuck_env :: env where
  "stuck_env =
     \<lparr>settings = \<lparr>DEFAULT_REGION = ''us-east-1''\<rparr>,
      cloud = (\<lambda>t r. Some (connection_reporting ''pending''))\<rparr>"

definition booting_env :: env where
  "booting_env =
     \<lparr>settings = \<lparr>DEFAULT_REGION = ''us-east-1''\<rparr>,
      cloud = (\<lambda>t r. Some (connection_reporting (if t < 2 then ''pending'' else ''running'')))\<rparr>"

text \<open>
  A cloud whose answer to a query by filters is one reservation that holds no
  instance.
\<close>

definition hollow_connection :: connection where
  "hollow_connection =
     \<lparr>get_all_instances =
        (\<lambda>q. case q of
                ByInstanceIds ids \<Rightarrow> Inr []
              | ByFilters _ \<Rightarrow> Inr [\<lparr>instances = []\<rparr>]),
      run_instances =
        (\<lambda>ami k. Inr \<lparr>instances = [\<lparr>inst_id = ''i-new'', inst_state = ''pending''\<rparr>]\<rparr>)\<rparr>"

definition hollow_env :: env where
  "hollow_env =
     \<lparr>settings = \<lparr>DEFAULT_REGION = ''us-east-1''\<rparr>,
      cloud = (\<lambda>t r. Some hollow_connection)\<rparr>"

text \<open>A process that has made the list \<open>xs\<close> at address 1 and has \<open>input\<close> to read.\<close>

definition world_with :: "int list \<Rightarrow> string list \<Rightarrow> world" where
  "world_with xs input = (initial_world input)\<lparr>lists := (lists (initial_world input))(1 := xs)\<rparr>"

text \<open>A launcher as \<^verbatim>\<open>__init__\<close> leaves it, and one that has been run.\<close>

definition example_launcher :: "string \<Rightarrow> Ec2LaunchInstance" where
  "example_launcher name =
     \<lparr>extra_tags = [''Name'' \<mapsto> name],
      conf = \<lparr>conf_region = Some ''us-east-1'', conf_ami = Some ''ami-1'',
              conf_tags = Some [''Name'' \<mapsto> ''a'', ''Env'' \<mapsto> ''prod'']\<rparr>,
      kw = \<lparr>key_name = ''key'', instance_type = ''t1.micro'', security_groups = [''default''],
            placement = None\<rparr>,
      instance_attr = None\<rparr>"

definition launched :: "string \<Rightarrow> string \<Rightarrow> Ec2LaunchInstance" where
  "launched name i =
     (example_launcher name)\<lparr>instance_attr := Some \<lparr>inst_id = i, inst_state = ''pending''\<rparr>\<rparr>"

text \<open>Keyword arguments for one poll of one second: the list at address 1, no repeats.\<close>

definition one_poll :: wait_kwargs where
  "one_poll = \<lparr>kw_sleep_intervals = Some 1, kw_last_sleep_repeat = Some 0\<rparr>"

section \<open>Instance identifier parsing\<close>

lemma split_at_first_colon:
  assumes "CHR '':'' \<in> set s"
  shows "s = takeWhile (\<lambda>c. c \<noteq> CHR '':'') s @ CHR '':'' # drop 1 (dropWhile (\<lambda>c. c \<noteq> CHR '':'') s)"
proof -
  from assms have ne: "dropWhile (\<lambda>c. c \<noteq> CHR '':'') s \<noteq> []"
    by auto
  then have hd: "hd (dropWhile (\<lambda>c. c \<noteq> CHR '':'') s) = CHR '':''"
    using hd_dropWhile [of "\<lambda>c. c \<noteq> CHR '':''" s] by simp
  from ne hd have "dropWhile (\<lambda>c. c \<noteq> CHR '':'') s
      = CHR '':'' # drop 1 (dropWhile (\<lambda>c. c \<noteq> CHR '':'') s)"
    by (cases "dropWhile (\<lambda>c. c \<noteq> CHR '':'') s") simp_all
  then show ?thesis
    using takeWhile_dropWhile_id [of "\<lambda>c. c \<noteq> CHR '':''" s] by simp
qed

lemma no_colon_before_first_colon:
  "CHR '':'' \<notin> set (takeWhile (\<lambda>c. c \<noteq> CHR '':'') s)"
  by (auto dest: set_takeWhileD)

text \<open>
  C8. For every input string: when it holds a colon, the parse cuts it at the
  first colon only (the region is the part before it and holds no colon, the
  identifier is everything after it, further colons included); when it holds no
  colon, the whole string is the identifier and the region is the configured
  default. So \<^verbatim>\<open>"us-east-1:i-1234"\<close> parses to \<^verbatim>\<open>("us-east-1", "i-1234")\<close> and
  \<^verbatim>\<open>"i-1234"\<close> to the default region with \<^verbatim>\<open>"i-1234"\<close>.
\<close>

theorem parse_instanceid_first_colon:
  "(CHR '':'' \<in> set s \<longrightarrow>
      s = fst (parse_instanceid st s) @ CHR '':'' # snd (parse_instanceid st s)
      \<and> CHR '':'' \<notin> set (fst (parse_instanceid st s)))
   \<and> (CHR '':'' \<notin> set s \<longrightarrow> parse_instanceid st s = (DEFAULT_REGION st, s))
   \<and> parse_instanceid st ''us-east-1:i-1234'' = (''us-east-1'', ''i-1234'')
   \<and> parse_instanceid st ''i-1234'' = (DEFAULT_REGION st, ''i-1234'')"
proof (intro conjI impI)
  assume c: "CHR '':'' \<in> set s"
  then show "s = fst (parse_instanceid st s) @ CHR '':'' # snd (parse_instanceid st s)"
    using split_at_first_colon [OF c]
    by (simp add: parse_instanceid_def private_parse_instanceident_def)
  from c show "CHR '':'' \<notin> set (fst (parse_instanceid st s))"
    using no_colon_before_first_colon [of s]
    by (simp add: parse_instanceid_def private_parse_instanceident_def)
next
  assume "CHR '':'' \<notin> set s"
  then show "parse_instanceid st s = (DEFAULT_REGION st, s)"
    by (simp add: parse_instanceid_def private_parse_instanceident_def)
next
  show "parse_instanceid st ''us-east-1:i-1234'' = (''us-east-1'', ''i-1234'')"
    by (simp add: parse_instanceid_def private_parse_instanceident_def)
  show "parse_instanceid st ''i-1234'' = (DEFAULT_REGION st, ''i-1234'')"
    by (simp add: parse_instanceid_def private_parse_instanceident_def)
qed

theorem parse_instanceid_first_colon_witness:
  "CHR '':'' \<in> set ''eu-west-1:i-12:34''
   \<and> parse_instanceid \<lparr>DEFAULT_REGION = ''eu-west-1''\<rparr> ''eu-west-1:i-12:34''
       = (''eu-west-1'', ''i-12:34'')
   \<and> CHR '':'' \<notin> set ''i-1234''
   \<and> parse_instanceid \<lparr>DEFAULT_REGION = ''eu-west-1''\<rparr> ''i-1234'' = (''eu-west-1'', ''i-1234'')"
  using parse_instanceid_first_colon
    [of "''eu-west-1:i-12:34''" "\<lparr>DEFAULT_REGION = ''eu-west-1''\<rparr>"]
    parse_instanceid_first_colon [of "''i-1234''" "\<lparr>DEFAULT_REGION = ''eu-west-1''\<rparr>"]
  by (simp add: parse_instanceid_def private_parse_instanceident_def)

section \<open>The state and the polling loop\<close>

lemma emit_simps [simp]:
  "clock (emit e w) = clock w"
  "log (emit e w) = log w @ [e]"
  "stdin (emit e w) = stdin w"
  "lists (emit e w) = lists w"
  by (simp_all add: emit_def)

lemma get_by_instanceid_world:
  "snd (get_by_instanceid env i w) =
     emit (Connect (Some (fst (parse_instanceid (settings env) i)))) (w\<lparr>clock := Suc (clock w)\<rparr>)"
  by (simp add: get_by_instanceid_def connect_to_region_def
      split: prod.splits option.splits sum.splits list.splits)

lemma get_by_instanceid_result:
  "clock w = clock w' \<Longrightarrow> fst (get_by_instanceid env i w) = fst (get_by_instanceid env i w')"
  by (simp add: get_by_instanceid_def connect_to_region_def
      split: prod.splits option.splits sum.splits list.splits)

lemma get_by_instanceid_state_at:
  assumes "state_at env i (clock w) = Inr s"
  shows "\<exists>inst. get_by_instanceid env i w =
           (Inr inst, emit (Connect (Some (fst (parse_instanceid (settings env) i))))
                        (w\<lparr>clock := Suc (clock w)\<rparr>))
         \<and> inst_state inst = s"
proof -
  have "fst (get_by_instanceid env i w) =
        fst (get_by_instanceid env i \<lparr>clock = clock w, log = [], stdin = [], lists = (\<lambda>_. [])\<rparr>)"
    by (rule get_by_instanceid_result) simp
  with assms have m: "map_sum id inst_state (fst (get_by_instanceid env i w)) = Inr s"
    by (simp add: state_at_def)
  then obtain inst where "fst (get_by_instanceid env i w) = Inr inst" "inst_state inst = s"
    by (cases "fst (get_by_instanceid env i w)") simp_all
  then show ?thesis
    using get_by_instanceid_world [of env i w] by (cases "get_by_instanceid env i w") auto
qed

lemma poll_log_prefix:
  "\<exists>es. log (snd (poll env i t n idx xs w)) = log w @ es"
proof (induction xs arbitrary: idx w)
  case Nil
  then show ?case by simp
next
  case (Cons d xs)
  show ?case
  proof (cases "get_by_instanceid env i w")
    case (Pair r w1)
    then have w1: "w1 = emit (Connect (Some (fst (parse_instanceid (settings env) i)))) (w\<lparr>clock := Suc (clock w)\<rparr>)"
      using get_by_instanceid_world [of env i w] by simp
    show ?thesis
    proof (cases r)
      case (Inl e)
      with Pair w1 show ?thesis by simp
    next
      case (Inr inst)
      show ?thesis
      proof (cases "inst_state inst = t")
        case True
        with Pair Inr w1 show ?thesis by simp
      next
        case False
        show ?thesis
        proof (cases "d < 0")
          case True
          with Pair Inr w1 False show ?thesis by (simp add: sleep_def Let_def)
        next
          case nonneg: False
          from Cons.IH [of "idx + 1" "emit (Sleep d) (emit (PrintNextPoll (inst_state inst) (idx + 1) n t d) w1)"]
          obtain es where "log (snd (poll env i t n (idx + 1) xs
              (emit (Sleep d) (emit (PrintNextPoll (inst_state inst) (idx + 1) n t d) w1)))) =
              log (emit (Sleep d) (emit (PrintNextPoll (inst_state inst) (idx + 1) n t d) w1)) @ es"
            by blast
          with Pair Inr w1 False nonneg show ?thesis by (simp add: sleep_def Let_def)
        qed
      qed
    qed
  qed
qed

lemma poll_lists: "lists (snd (poll env i t n idx xs w)) = lists w"
proof (induction xs arbitrary: idx w)
  case Nil
  then show ?case by simp
next
  case (Cons d xs)
  show ?case
  proof (cases "get_by_instanceid env i w")
    case (Pair r w1)
    then have w1: "w1 = emit (Connect (Some (fst (parse_instanceid (settings env) i)))) (w\<lparr>clock := Suc (clock w)\<rparr>)"
      using get_by_instanceid_world [of env i w] by simp
    then have l1: "lists w1 = lists w" by simp
    show ?thesis
      using Pair l1 Cons.IH
      by (cases r) (auto simp: sleep_def Let_def)
  qed
qed

lemma polls_and_sleeps_simps [simp]:
  "polls_and_sleeps [] = []"
  "polls_and_sleeps (xs @ ys) = polls_and_sleeps xs @ polls_and_sleeps ys"
  "polls_and_sleeps (Connect r # es) = Connect r # polls_and_sleeps es"
  "polls_and_sleeps (Sleep d # es) = Sleep d # polls_and_sleeps es"
  "polls_and_sleeps (PrintNextPoll a b c d' e # es) = polls_and_sleeps es"
  "polls_and_sleeps (PrintWaiting i t m # es) = polls_and_sleeps es"
  "polls_and_sleeps (PrintOK # es) = polls_and_sleeps es"
  by (simp_all add: polls_and_sleeps_def)

lemma poll_step_stuck:
  assumes s: "state_at env i (clock w) = Inr s" and ne: "s \<noteq> t" and d: "0 \<le> d"
  shows "poll env i t n idx (d # xs) w =
     poll env i t n (idx + 1) xs
       (emit (Sleep d) (emit (PrintNextPoll s (idx + 1) n t d)
          (emit (lookup_event env i) (w\<lparr>clock := Suc (clock w)\<rparr>))))"
proof -
  from get_by_instanceid_state_at [OF s] obtain inst where
    "get_by_instanceid env i w = (Inr inst, emit (lookup_event env i) (w\<lparr>clock := Suc (clock w)\<rparr>))"
    "inst_state inst = s"
    by (auto simp: lookup_event_def)
  with ne d show ?thesis by (simp add: sleep_def Let_def)
qed

lemma poll_step_match:
  assumes s: "state_at env i (clock w) = Inr t"
  shows "poll env i t n idx (d # xs) w =
     (Inr True, emit PrintOK (emit (lookup_event env i) (w\<lparr>clock := Suc (clock w)\<rparr>)))"
proof -
  from get_by_instanceid_state_at [OF s] obtain inst where
    "get_by_instanceid env i w = (Inr inst, emit (lookup_event env i) (w\<lparr>clock := Suc (clock w)\<rparr>))"
    "inst_state inst = t"
    by (auto simp: lookup_event_def)
  then show ?thesis by simp
qed

lemma poll_stuck:
  assumes "\<forall>d\<in>set xs. 0 \<le> d"
    and "\<forall>j<length xs. \<exists>s. state_at env i (clock w + j) = Inr s \<and> s \<noteq> t"
  shows "fst (poll env i t n idx xs w) = Inr False
    \<and> clock (snd (poll env i t n idx xs w)) = clock w + length xs
    \<and> polls_and_sleeps (log (snd (poll env i t n idx xs w)))
        = polls_and_sleeps (log w) @ concat (map (\<lambda>d. [lookup_event env i, Sleep d]) xs)"
  using assms
proof (induction xs arbitrary: idx w)
  case Nil
  then show ?case by simp
next
  case (Cons d xs)
  from Cons.prems(2) obtain s where s: "state_at env i (clock w) = Inr s" "s \<noteq> t"
    by fastforce
  from Cons.prems(1) have d: "0 \<le> d" by simp
  define w' where "w' = emit (Sleep d) (emit (PrintNextPoll s (idx + 1) n t d)
          (emit (lookup_event env i) (w\<lparr>clock := Suc (clock w)\<rparr>)))"
  have step: "poll env i t n idx (d # xs) w = poll env i t n (idx + 1) xs w'"
    unfolding w'_def by (rule poll_step_stuck [OF s d])
  have c: "clock w' = Suc (clock w)" by (simp add: w'_def)
  have l: "polls_and_sleeps (log w') = polls_and_sleeps (log w) @ [lookup_event env i, Sleep d]"
    by (simp add: w'_def lookup_event_def)
  have "\<forall>j<length xs. \<exists>s. state_at env i (clock w' + j) = Inr s \<and> s \<noteq> t"
  proof (intro allI impI)
    fix j assume "j < length xs"
    then have "Suc j < length (d # xs)" by simp
    with Cons.prems(2) have "\<exists>s. state_at env i (clock w + Suc j) = Inr s \<and> s \<noteq> t" by blast
    then show "\<exists>s. state_at env i (clock w' + j) = Inr s \<and> s \<noteq> t" by (simp add: c)
  qed
  moreover from Cons.prems(1) have "\<forall>d\<in>set xs. 0 \<le> d" by simp
  ultimately have IH: "fst (poll env i t n (idx + 1) xs w') = Inr False
    \<and> clock (snd (poll env i t n (idx + 1) xs w')) = clock w' + length xs
    \<and> polls_and_sleeps (log (snd (poll env i t n (idx + 1) xs w')))
        = polls_and_sleeps (log w') @ concat (map (\<lambda>d. [lookup_event env i, Sleep d]) xs)"
    using Cons.IH [of w' "idx + 1"] by blast
  show ?case
    unfolding step using IH by (simp add: c l)
qed

lemma poll_append:
  assumes "fst (poll env i t n idx xs w) = Inr False"
  shows "poll env i t n idx (xs @ ys) w =
         poll env i t n (idx + length xs) ys (snd (poll env i t n idx xs w))"
  using assms
proof (induction xs arbitrary: idx w)
  case Nil
  then show ?case by simp
next
  case (Cons d xs)
  show ?case
  proof (cases "get_by_instanceid env i w")
    case (Pair r w1)
    show ?thesis
    proof (cases r)
      case (Inl e)
      with Pair Cons.prems show ?thesis by simp
    next
      case (Inr inst)
      show ?thesis
      proof (cases "inst_state inst = t")
        case True
        with Pair Inr Cons.prems show ?thesis by simp
      next
        case False
        show ?thesis
        proof (cases "d < 0")
          case True
          with Pair Inr False Cons.prems show ?thesis by (simp add: sleep_def Let_def)
        next
          case nonneg: False
          with Pair Inr False Cons.prems Cons.IH [of "idx + 1"
              "emit (Sleep d) (emit (PrintNextPoll (inst_state inst) (idx + 1) n t d) w1)"]
          show ?thesis by (simp add: sleep_def Let_def)
        qed
      qed
    qed
  qed
qed

lemma new_events_append: "log w' = log w @ es \<Longrightarrow> new_events w w' = es"
  by (simp add: new_events_def)

lemma rounds_queries:
  "length (filter is_query (concat (map (\<lambda>d. [lookup_event env i, Sleep d]) xs))) = length xs"
  by (induction xs) (simp_all add: lookup_event_def)

lemma rounds_sleeps:
  "length (filter is_sleep (concat (map (\<lambda>d. [lookup_event env i, Sleep d]) xs))) = length xs"
  by (induction xs) (simp_all add: lookup_event_def)

lemma filter_query_polls: "filter is_query (polls_and_sleeps es) = filter is_query es"
  by (induction es) (auto simp: polls_and_sleeps_def)

lemma filter_sleep_polls: "filter is_sleep (polls_and_sleeps es) = filter is_sleep es"
  by (induction es) (auto simp: polls_and_sleeps_def)

lemma extend_sleep_intervals_nonempty:
  "ramp \<noteq> [] \<Longrightarrow> extend_sleep_intervals ramp rep = Inr (ramp @ replicate (nat rep) (last ramp))"
  by (simp add: extend_sleep_intervals_def)

lemma wait_for_state_unfold:
  assumes "extend_sleep_intervals (lists w a) rep = Inr seq"
  shows "wait_for_state env i0 t a rep w =
    (case poll env (snd (parse_instanceid (settings env) i0)) t (length seq) 0 seq
            (emit (PrintWaiting (snd (parse_instanceid (settings env) i0)) t (sum_list seq))
               (w\<lparr>lists := (lists w)(a := seq)\<rparr>)) of
       (Inl e, w3) \<Rightarrow> (Inl e, w3)
     | (Inr True, w3) \<Rightarrow> (Inr (), w3)
     | (Inr False, w3) \<Rightarrow> (Inl (WaitForStateError t (sum_list seq)), w3))"
  using assms by (simp add: wait_for_state_def Let_def split: prod.splits)

lemma wait_for_state_world:
  assumes "extend_sleep_intervals (lists w a) rep = Inr seq"
  shows "snd (wait_for_state env i0 t a rep w) =
     snd (poll env (snd (parse_instanceid (settings env) i0)) t (length seq) 0 seq
            (emit (PrintWaiting (snd (parse_instanceid (settings env) i0)) t (sum_list seq))
               (w\<lparr>lists := (lists w)(a := seq)\<rparr>)))"
  unfolding wait_for_state_unfold [OF assms]
  by (simp split: prod.splits sum.splits bool.splits)

lemma wait_for_state_lists:
  assumes "extend_sleep_intervals (lists w a) rep = Inr seq"
  shows "lists (snd (wait_for_state env i0 t a rep w)) = (lists w)(a := seq)"
  unfolding wait_for_state_world [OF assms] by (simp add: poll_lists)

lemma wait_for_state_reports_first:
  assumes "extend_sleep_intervals (lists w a) rep = Inr seq"
  shows "\<exists>es. new_events w (snd (wait_for_state env i0 t a rep w)) =
     PrintWaiting (snd (parse_instanceid (settings env) i0)) t (sum_list seq) # es"
proof -
  define w2 where "w2 = emit (PrintWaiting (snd (parse_instanceid (settings env) i0)) t (sum_list seq))
               (w\<lparr>lists := (lists w)(a := seq)\<rparr>)"
  obtain es where "log (snd (poll env (snd (parse_instanceid (settings env) i0)) t (length seq) 0 seq w2))
      = log w2 @ es"
    using poll_log_prefix by blast
  then have "log (snd (wait_for_state env i0 t a rep w)) =
      log w @ PrintWaiting (snd (parse_instanceid (settings env) i0)) t (sum_list seq) # es"
    unfolding wait_for_state_world [OF assms] w2_def by simp
  then show ?thesis by (simp add: new_events_append)
qed

lemma wait_for_state_polls:
  assumes "extend_sleep_intervals (lists w a) rep = Inr seq"
    and "polls_and_sleeps (log (snd (poll env (snd (parse_instanceid (settings env) i0)) t (length seq) 0 seq
            (emit (PrintWaiting (snd (parse_instanceid (settings env) i0)) t (sum_list seq))
               (w\<lparr>lists := (lists w)(a := seq)\<rparr>))))) = polls_and_sleeps (log w) @ ps"
  shows "polls_and_sleeps (new_events w (snd (wait_for_state env i0 t a rep w))) = ps"
proof -
  obtain es where es: "new_events w (snd (wait_for_state env i0 t a rep w)) =
     PrintWaiting (snd (parse_instanceid (settings env) i0)) t (sum_list seq) # es"
    using wait_for_state_reports_first [OF assms(1)] by blast
  obtain es' where es': "log (snd (wait_for_state env i0 t a rep w)) = log w @ es'"
    using poll_log_prefix [of env "snd (parse_instanceid (settings env) i0)" t "length seq" 0 seq
        "emit (PrintWaiting (snd (parse_instanceid (settings env) i0)) t (sum_list seq))
               (w\<lparr>lists := (lists w)(a := seq)\<rparr>)"]
    unfolding wait_for_state_world [OF assms(1)] by auto
  then have n: "new_events w (snd (wait_for_state env i0 t a rep w)) = es'"
    by (simp add: new_events_append)
  from assms(2) have "polls_and_sleeps (log w @ es') = polls_and_sleeps (log w) @ ps"
    unfolding wait_for_state_world [OF assms(1), symmetric] es' by simp
  then have "polls_and_sleeps es' = ps" by simp
  with n show ?thesis by simp
qed

section \<open>The example clouds\<close>

lemmas run_defs =
  wait_for_state_def extend_sleep_intervals_def get_by_instanceid_def connect_to_region_def
  parse_instanceid_def private_parse_instanceident_def sleep_def emit_def
  connection_reporting_def world_with_def initial_world_def DEFAULT_sleep_intervals_def
  new_events_def Let_def

lemmas launch_defs =
  wait_for_running_state_def one_poll_def launched_def example_launcher_def stuck_env_def
  confirm_many_def private_confirm_def raw_input_def abort_def lower_def lower_char_def
  prettyformat_def get_all_tags_def launch_many_def run_instance_def private_add_tags_def

lemma stuck_env_state_at: "state_at stuck_env ''i-1234'' j = Inr ''pending''"
  by (simp add: state_at_def stuck_env_def run_defs)

lemma booting_env_state_at:
  "state_at booting_env ''i-1234'' j = Inr (if j < 2 then ''pending'' else ''running'')"
  by (simp add: state_at_def booting_env_def run_defs)

section \<open>The duration sequence and the reported maximum wait\<close>

text \<open>
  C2. For every non-empty list of ramp intervals and every repeat count that is not
  negative, the sequence that \<^verbatim>\<open>wait_for_state\<close> builds is the ramp followed by that
  many copies of the ramp's last element; its length is the length of the ramp plus
  the repeat count; and the first thing the call does, before any poll, is to
  report the sum of that sequence as the maximum wait.
\<close>

theorem wait_for_state_sequence:
  assumes "lists w a = ramp" and "ramp \<noteq> []" and "0 \<le> rep"
  shows "extend_sleep_intervals ramp rep = Inr (ramp @ replicate (nat rep) (last ramp))
    \<and> lists (snd (wait_for_state env i0 t a rep w)) a = ramp @ replicate (nat rep) (last ramp)
    \<and> int (length (ramp @ replicate (nat rep) (last ramp))) = int (length ramp) + rep
    \<and> (\<exists>es. new_events w (snd (wait_for_state env i0 t a rep w)) =
          PrintWaiting (snd (parse_instanceid (settings env) i0)) t
            (sum_list (ramp @ replicate (nat rep) (last ramp))) # es)"
proof -
  have e: "extend_sleep_intervals (lists w a) rep = Inr (ramp @ replicate (nat rep) (last ramp))"
    using assms(1,2) by (simp add: extend_sleep_intervals_nonempty)
  have "int (length (ramp @ replicate (nat rep) (last ramp))) = int (length ramp) + rep"
    using assms(3) by simp
  moreover have "lists (snd (wait_for_state env i0 t a rep w)) a
      = ramp @ replicate (nat rep) (last ramp)"
    by (simp add: wait_for_state_lists [OF e])
  ultimately show ?thesis
    using e wait_for_state_reports_first [OF e, of env i0 t] assms(1) by simp
qed

theorem wait_for_state_sequence_witness:
  "lists (world_with [15, 5] []) 1 = [15, 5]
   \<and> extend_sleep_intervals [15, 5] 2 = Inr [15, 5, 5, 5]
   \<and> lists (snd (wait_for_state stuck_env ''i-1234'' ''running'' 1 2 (world_with [15, 5] []))) 1
       = [15, 5, 5, 5]
   \<and> hd (new_events (world_with [15, 5] [])
        (snd (wait_for_state stuck_env ''i-1234'' ''running'' 1 2 (world_with [15, 5] []))))
       = PrintWaiting ''i-1234'' ''running'' 30"
proof -
  have l: "lists (world_with [15, 5] []) 1 = [15, 5]"
    by (simp add: world_with_def)
  have p: "snd (parse_instanceid (settings stuck_env) ''i-1234'') = ''i-1234''"
    by (simp add: parse_instanceid_def private_parse_instanceident_def)
  from wait_for_state_sequence [OF l, of 2 stuck_env "''i-1234''" "''running''"] l show ?thesis
    by (auto simp: p eval_nat_numeral)
qed

section \<open>Waiting without reaching the state\<close>

lemma stuck_run_log:
  "log (snd (wait_for_state stuck_env ''i-1234'' ''running'' 1 2 (world_with [15, 5] []))) =
    [PrintWaiting ''i-1234'' ''running'' 30,
     Connect (Some ''us-east-1''), PrintNextPoll ''pending'' 1 4 ''running'' 15, Sleep 15,
     Connect (Some ''us-east-1''), PrintNextPoll ''pending'' 2 4 ''running'' 5, Sleep 5,
     Connect (Some ''us-east-1''), PrintNextPoll ''pending'' 3 4 ''running'' 5, Sleep 5,
     Connect (Some ''us-east-1''), PrintNextPoll ''pending'' 4 4 ''running'' 5, Sleep 5]"
  by (simp add: stuck_env_def run_defs eval_nat_numeral)

text \<open>
  C1. The claim: when the state read never equals the target state,
  \<^verbatim>\<open>wait_for_state\<close> makes exactly \<^verbatim>\<open>len(rampIntervals) + steadyRepeatCount\<close> queries,
  sleeps only between consecutive queries, none after the last, and then raises
  with the sum of the sequence. The docstring says the same of the sleeps: the
  intervals are the seconds to wait between each poll, each one before the next
  poll. The code does not do it. With the intervals \<^verbatim>\<open>[15, 5]\<close>, two repeats and an
  instance that stays \<^verbatim>\<open>pending\<close>, it makes 4 queries and 4 sleeps, not 3: after the
  fourth query it announces a next poll (4/4) in 5 seconds, sleeps the 5 seconds,
  and raises \<^verbatim>\<open>WaitForStateError\<close> for 30 seconds without that poll.
\<close>

theorem wait_for_state_sleeps_after_last_query:
  "fst (wait_for_state stuck_env ''i-1234'' ''running'' 1 2 (world_with [15, 5] []))
     = Inl (WaitForStateError ''running'' 30)
   \<and> length (filter is_query (new_events (world_with [15, 5] [])
        (snd (wait_for_state stuck_env ''i-1234'' ''running'' 1 2 (world_with [15, 5] []))))) = 4
   \<and> length (filter is_sleep (new_events (world_with [15, 5] [])
        (snd (wait_for_state stuck_env ''i-1234'' ''running'' 1 2 (world_with [15, 5] []))))) = 4
   \<and> drop 10 (new_events (world_with [15, 5] [])
        (snd (wait_for_state stuck_env ''i-1234'' ''running'' 1 2 (world_with [15, 5] []))))
       = [Connect (Some ''us-east-1''), PrintNextPoll ''pending'' 4 4 ''running'' 5, Sleep 5]"
proof -
  have "fst (wait_for_state stuck_env ''i-1234'' ''running'' 1 2 (world_with [15, 5] []))
     = Inl (WaitForStateError ''running'' 30)"
    by (simp add: stuck_env_def run_defs eval_nat_numeral)
  moreover have "log (world_with [15, 5] []) = []"
    by (simp add: world_with_def initial_world_def)
  ultimately show ?thesis
    using stuck_run_log by (simp add: new_events_def)
qed

section \<open>Reaching the state\<close>

text \<open>
  C3. If the target state is first read by query number \<open>k\<close> (counted from 1, within
  the sequence), the queries before it succeeding with another state,
  \<^verbatim>\<open>wait_for_state\<close> returns normally after exactly \<open>k\<close> queries and \<open>k - 1\<close> sleeps, every
  sleep lying between two queries; for \<open>k = 1\<close> that is one query and no sleep.
\<close>

theorem wait_for_state_reached:
  assumes "extend_sleep_intervals (lists w a) rep = Inr seq"
    and "1 \<le> k" and "k \<le> length seq"
    and "\<forall>d\<in>set (take (k - 1) seq). 0 \<le> d"
    and "\<forall>j < k - 1.
           \<exists>s. state_at env (snd (parse_instanceid (settings env) i0)) (clock w + j) = Inr s
                \<and> s \<noteq> t"
    and "state_at env (snd (parse_instanceid (settings env) i0)) (clock w + (k - 1)) = Inr t"
  shows "fst (wait_for_state env i0 t a rep w) = Inr ()
    \<and> polls_and_sleeps (new_events w (snd (wait_for_state env i0 t a rep w))) =
        concat (map (\<lambda>d. [lookup_event env (snd (parse_instanceid (settings env) i0)), Sleep d])
                  (take (k - 1) seq))
        @ [lookup_event env (snd (parse_instanceid (settings env) i0))]
    \<and> length (filter is_query (new_events w (snd (wait_for_state env i0 t a rep w)))) = k
    \<and> length (filter is_sleep (new_events w (snd (wait_for_state env i0 t a rep w)))) = k - 1"
proof -
  define iid where "iid = snd (parse_instanceid (settings env) i0)"
  define w2 where "w2 = emit (PrintWaiting iid t (sum_list seq)) (w\<lparr>lists := (lists w)(a := seq)\<rparr>)"
  define pre where "pre = take (k - 1) seq"
  define post where "post = drop k seq"
  have lp: "length pre = k - 1" using assms(2,3) by (simp add: pre_def)
  have split: "seq = pre @ seq ! (k - 1) # post"
    using assms(2,3) id_take_nth_drop [of "k - 1" seq] by (simp add: pre_def post_def)
  have stuck: "\<forall>j<length pre. \<exists>s. state_at env iid (clock w2 + j) = Inr s \<and> s \<noteq> t"
    using assms(5) by (simp add: lp w2_def iid_def)
  have nonneg: "\<forall>d\<in>set pre. 0 \<le> d" using assms(4) by (simp add: pre_def)
  note p = poll_stuck [OF nonneg stuck, of "length seq" 0]
  define w3 where "w3 = snd (poll env iid t (length seq) 0 pre w2)"
  have c3: "clock w3 = clock w + (k - 1)" using p by (simp add: w3_def lp w2_def)
  have m: "state_at env iid (clock w3) = Inr t" using assms(6) by (simp add: c3 iid_def)
  have "poll env iid t (length seq) 0 (pre @ seq ! (k - 1) # post) w2
      = poll env iid t (length seq) (0 + length pre) (seq ! (k - 1) # post) w3"
    unfolding w3_def using p by (intro poll_append) simp
  also have "\<dots> = (Inr True, emit PrintOK (emit (lookup_event env iid) (w3\<lparr>clock := Suc (clock w3)\<rparr>)))"
    by (rule poll_step_match [OF m])
  finally have run: "poll env iid t (length seq) 0 seq w2
      = (Inr True, emit PrintOK (emit (lookup_event env iid) (w3\<lparr>clock := Suc (clock w3)\<rparr>)))"
    using split by simp
  have r: "fst (wait_for_state env i0 t a rep w) = Inr ()"
    unfolding wait_for_state_unfold [OF assms(1)] using run by (simp add: iid_def w2_def)
  have p3: "polls_and_sleeps (log w3)
      = polls_and_sleeps (log w) @ concat (map (\<lambda>d. [lookup_event env iid, Sleep d]) pre)"
    using p by (simp add: w3_def w2_def)
  have "polls_and_sleeps (log (snd (poll env iid t (length seq) 0 seq w2)))
      = polls_and_sleeps (log w) @ (concat (map (\<lambda>d. [lookup_event env iid, Sleep d]) pre)
          @ [lookup_event env iid])"
    unfolding run by (simp add: p3) (simp add: lookup_event_def)
  then have ps: "polls_and_sleeps (new_events w (snd (wait_for_state env i0 t a rep w)))
      = concat (map (\<lambda>d. [lookup_event env iid, Sleep d]) pre) @ [lookup_event env iid]"
    unfolding w2_def iid_def by (rule wait_for_state_polls [OF assms(1)])
  have q: "length (filter is_query (new_events w (snd (wait_for_state env i0 t a rep w)))) = k"
    using arg_cong [OF ps, of "\<lambda>es. length (filter is_query es)"] assms(2)
    by (simp add: filter_query_polls rounds_queries lp) (simp add: lookup_event_def)
  have sl: "length (filter is_sleep (new_events w (snd (wait_for_state env i0 t a rep w)))) = k - 1"
    using arg_cong [OF ps, of "\<lambda>es. length (filter is_sleep es)"]
    by (simp add: filter_sleep_polls rounds_sleeps lp) (simp add: lookup_event_def)
  from r ps q sl show ?thesis by (simp add: iid_def pre_def)
qed

theorem wait_for_state_reached_witness:
  "map (state_at booting_env ''i-1234'') [0, 1, 2] = [Inr ''pending'', Inr ''pending'', Inr ''running'']
   \<and> fst (wait_for_state booting_env ''i-1234'' ''running'' 1 2 (world_with [15, 5] [])) = Inr ()
   \<and> polls_and_sleeps (new_events (world_with [15, 5] [])
        (snd (wait_for_state booting_env ''i-1234'' ''running'' 1 2 (world_with [15, 5] []))))
     = [Connect (Some ''us-east-1''), Sleep 15, Connect (Some ''us-east-1''), Sleep 5,
        Connect (Some ''us-east-1'')]
   \<and> fst (wait_for_state booting_env ''i-1234'' ''pending'' 1 2 (world_with [15, 5] [])) = Inr ()
   \<and> polls_and_sleeps (new_events (world_with [15, 5] [])
        (snd (wait_for_state booting_env ''i-1234'' ''pending'' 1 2 (world_with [15, 5] []))))
     = [Connect (Some ''us-east-1'')]"
proof -
  have e: "extend_sleep_intervals (lists (world_with [15, 5] []) 1) 2 = Inr [15, 5, 5, 5]"
    by (simp add: world_with_def extend_sleep_intervals_def eval_nat_numeral)
  have p: "snd (parse_instanceid (settings booting_env) ''i-1234'') = ''i-1234''"
    by (simp add: parse_instanceid_def private_parse_instanceident_def)
  have le: "lookup_event booting_env ''i-1234'' = Connect (Some ''us-east-1'')"
    by (simp add: lookup_event_def booting_env_def parse_instanceid_def private_parse_instanceident_def)
  have c: "clock (world_with [15, 5] []) = 0"
    by (simp add: world_with_def initial_world_def)
  have third: "fst (wait_for_state booting_env ''i-1234'' ''running'' 1 2 (world_with [15, 5] [])) = Inr ()
    \<and> polls_and_sleeps (new_events (world_with [15, 5] [])
        (snd (wait_for_state booting_env ''i-1234'' ''running'' 1 2 (world_with [15, 5] []))))
     = [Connect (Some ''us-east-1''), Sleep 15, Connect (Some ''us-east-1''), Sleep 5,
        Connect (Some ''us-east-1'')]"
    using wait_for_state_reached [OF e, of 3 booting_env "''i-1234''" "''running''"]
    by (simp add: p le c booting_env_state_at eval_nat_numeral less_Suc_eq)
  have first: "fst (wait_for_state booting_env ''i-1234'' ''pending'' 1 2 (world_with [15, 5] [])) = Inr ()
    \<and> polls_and_sleeps (new_events (world_with [15, 5] [])
        (snd (wait_for_state booting_env ''i-1234'' ''pending'' 1 2 (world_with [15, 5] []))))
     = [Connect (Some ''us-east-1'')]"
    using wait_for_state_reached [OF e, of 1 booting_env "''i-1234''" "''pending''"]
    by (simp add: p le c booting_env_state_at)
  from third first show ?thesis
    by (simp add: booting_env_state_at)
qed

section \<open>An empty list of intervals\<close>

text \<open>
  C4 as stated fails: with an empty list of intervals and the default 40 repeats
  the call raises \<^verbatim>\<open>IndexError\<close>, the failure of reading the last element of an
  empty list.
\<close>

theorem wait_for_state_empty_IndexError:
  "wait_for_state stuck_env ''i-1234'' ''running'' 1 40 (world_with [] [])
     = (Inl IndexError, world_with [] [])"
  by (simp add: run_defs)

text \<open>
  C4, amended. With an empty list of intervals \<^verbatim>\<open>wait_for_state\<close> fails without any
  query: for a positive repeat count it raises \<^verbatim>\<open>IndexError\<close> from reading the last
  element of the empty list, before it has printed or changed anything; for a
  repeat count of zero or less it reports a maximum wait of 0 and raises
  \<^verbatim>\<open>WaitForStateError\<close>.
\<close>

theorem wait_for_state_empty:
  assumes "lists w a = []"
  shows "(0 < rep \<longrightarrow> wait_for_state env i0 t a rep w = (Inl IndexError, w))
    \<and> (rep \<le> 0 \<longrightarrow>
         fst (wait_for_state env i0 t a rep w) = Inl (WaitForStateError t 0)
         \<and> new_events w (snd (wait_for_state env i0 t a rep w)) =
             [PrintWaiting (snd (parse_instanceid (settings env) i0)) t 0])
    \<and> filter is_query (new_events w (snd (wait_for_state env i0 t a rep w))) = []"
  using assms
  by (auto simp: wait_for_state_def extend_sleep_intervals_def new_events_def Let_def
      split: prod.splits)

theorem wait_for_state_empty_witness:
  "lists (world_with [] []) 1 = []
   \<and> wait_for_state stuck_env ''i-1234'' ''running'' 1 40 (world_with [] [])
       = (Inl IndexError, world_with [] [])
   \<and> fst (wait_for_state stuck_env ''i-1234'' ''running'' 1 0 (world_with [] []))
       = Inl (WaitForStateError ''running'' 0)
   \<and> new_events (world_with [] [])
        (snd (wait_for_state stuck_env ''i-1234'' ''running'' 1 0 (world_with [] [])))
       = [PrintWaiting ''i-1234'' ''running'' 0]"
proof -
  have l: "lists (world_with [] []) 1 = []"
    by (simp add: world_with_def)
  have p: "snd (parse_instanceid (settings stuck_env) ''i-1234'') = ''i-1234''"
    by (simp add: parse_instanceid_def private_parse_instanceident_def)
  from wait_for_state_empty [OF l, of 40 stuck_env "''i-1234''" "''running''"]
    wait_for_state_empty [OF l, of 0 stuck_env "''i-1234''" "''running''"] l
  show ?thesis by (simp add: p)
qed

section \<open>The shared default list\<close>

text \<open>
  C10. \<^verbatim>\<open>wait_for_state\<close> extends its list of intervals in place. The list of the
  default argument is one shared object, so after a call that leaves the argument
  out with \<open>rep1\<close> repeats the default list is \<^verbatim>\<open>[15, 5]\<close> followed by \<open>rep1\<close> fives,
  and a later such call with \<open>rep2\<close> repeats uses a sequence of
  \<^verbatim>\<open>len([15, 5]) + rep2 + rep1\<close> intervals and reports the maximum wait of that
  longer sequence.
\<close>

theorem wait_for_state_grows_default:
  assumes "lists w DEFAULT_sleep_intervals = [15, 5]" and "0 \<le> rep1" and "0 \<le> rep2"
  shows "lists (snd (wait_for_state env i1 t1 DEFAULT_sleep_intervals rep1 w)) DEFAULT_sleep_intervals
           = [15, 5] @ replicate (nat rep1) 5
    \<and> lists (snd (wait_for_state env i2 t2 DEFAULT_sleep_intervals rep2
                    (snd (wait_for_state env i1 t1 DEFAULT_sleep_intervals rep1 w))))
          DEFAULT_sleep_intervals
           = [15, 5] @ replicate (nat rep1 + nat rep2) 5
    \<and> int (length (lists (snd (wait_for_state env i2 t2 DEFAULT_sleep_intervals rep2
                    (snd (wait_for_state env i1 t1 DEFAULT_sleep_intervals rep1 w))))
          DEFAULT_sleep_intervals))
           = int (length [15, 5 :: int]) + rep2 + rep1
    \<and> (\<exists>es. new_events (snd (wait_for_state env i1 t1 DEFAULT_sleep_intervals rep1 w))
               (snd (wait_for_state env i2 t2 DEFAULT_sleep_intervals rep2
                    (snd (wait_for_state env i1 t1 DEFAULT_sleep_intervals rep1 w))))
             = PrintWaiting (snd (parse_instanceid (settings env) i2)) t2
                 (15 + 5 + 5 * (rep1 + rep2)) # es)"
proof -
  define w1 where "w1 = snd (wait_for_state env i1 t1 DEFAULT_sleep_intervals rep1 w)"
  have e1: "extend_sleep_intervals (lists w DEFAULT_sleep_intervals) rep1
      = Inr ([15, 5] @ replicate (nat rep1) 5)"
    using assms(1) by (simp add: extend_sleep_intervals_def)
  have l1: "lists w1 DEFAULT_sleep_intervals = [15, 5] @ replicate (nat rep1) 5"
    unfolding w1_def by (simp add: wait_for_state_lists [OF e1])
  have e2: "extend_sleep_intervals (lists w1 DEFAULT_sleep_intervals) rep2
      = Inr ([15, 5] @ replicate (nat rep1 + nat rep2) 5)"
    unfolding l1 by (simp add: extend_sleep_intervals_def replicate_add)
  have l2: "lists (snd (wait_for_state env i2 t2 DEFAULT_sleep_intervals rep2 w1)) DEFAULT_sleep_intervals
      = [15, 5] @ replicate (nat rep1 + nat rep2) 5"
    by (simp add: wait_for_state_lists [OF e2])
  have s: "sum_list ([15, 5] @ replicate (nat rep1 + nat rep2) (5::int)) = 15 + 5 + 5 * (rep1 + rep2)"
    using assms(2,3) by (simp add: sum_list_replicate)
  from wait_for_state_reports_first [OF e2, of env i2 t2] l1 l2 s assms(2,3) show ?thesis
    unfolding w1_def [symmetric] by simp
qed

theorem wait_for_state_grows_default_witness:
  "lists (initial_world []) DEFAULT_sleep_intervals = [15, 5]
   \<and> length (lists (snd (wait_for_state stuck_env ''i-1234'' ''running'' DEFAULT_sleep_intervals 40
                    (initial_world []))) DEFAULT_sleep_intervals) = 42
   \<and> length (lists (snd (wait_for_state stuck_env ''i-1234'' ''running'' DEFAULT_sleep_intervals 40
                (snd (wait_for_state stuck_env ''i-1234'' ''running'' DEFAULT_sleep_intervals 40
                    (initial_world []))))) DEFAULT_sleep_intervals) = 82
   \<and> hd (new_events (snd (wait_for_state stuck_env ''i-1234'' ''running'' DEFAULT_sleep_intervals 40
                    (initial_world [])))
           (snd (wait_for_state stuck_env ''i-1234'' ''running'' DEFAULT_sleep_intervals 40
                (snd (wait_for_state stuck_env ''i-1234'' ''running'' DEFAULT_sleep_intervals 40
                    (initial_world []))))))
       = PrintWaiting ''i-1234'' ''running'' 420"
proof -
  have l: "lists (initial_world []) DEFAULT_sleep_intervals = [15, 5]"
    by (simp add: initial_world_def)
  have p: "snd (parse_instanceid (settings stuck_env) ''i-1234'') = ''i-1234''"
    by (simp add: parse_instanceid_def private_parse_instanceident_def)
  from wait_for_state_grows_default [OF l, of 40 40 stuck_env "''i-1234''" "''running''"
      "''i-1234''" "''running''"] l
  show ?thesis by (auto simp: p)
qed

section \<open>Merging tags\<close>

lemma get_all_tags_of_conf:
  "conf_tags (conf self) = Some config_tags \<Longrightarrow> get_all_tags self = Inr (config_tags ++ extra_tags self)"
  by (simp add: get_all_tags_def)

text \<open>
  C7. For every dict of configuration tags and every dict of extra tags,
  \<^verbatim>\<open>get_all_tags\<close> returns the configuration's tags overwritten key by key by the
  extra tags: a key of the extra tags has the extra value, any other key has what
  the configuration gives it. So \<^verbatim>\<open>{Name: "a", Env: "prod"}\<close> merged with
  \<^verbatim>\<open>{Name: "b"}\<close> is \<^verbatim>\<open>{Name: "b", Env: "prod"}\<close>.
\<close>

theorem get_all_tags_merge:
  "(conf_tags (conf self) = Some config_tags \<longrightarrow>
      (\<exists>merged. get_all_tags self = Inr merged
         \<and> (\<forall>k. merged k = (case extra_tags self k of Some v \<Rightarrow> Some v | None \<Rightarrow> config_tags k))))
   \<and> get_all_tags
        \<lparr>extra_tags = [''Name'' \<mapsto> ''b''],
         conf = \<lparr>conf_region = r, conf_ami = a,
                 conf_tags = Some [''Name'' \<mapsto> ''a'', ''Env'' \<mapsto> ''prod'']\<rparr>,
         kw = k, instance_attr = i\<rparr>
       = Inr [''Name'' \<mapsto> ''b'', ''Env'' \<mapsto> ''prod'']"
proof (intro conjI impI)
  assume c: "conf_tags (conf self) = Some config_tags"
  show "\<exists>merged. get_all_tags self = Inr merged
         \<and> (\<forall>k. merged k = (case extra_tags self k of Some v \<Rightarrow> Some v | None \<Rightarrow> config_tags k))"
    unfolding get_all_tags_of_conf [OF c]
    by (simp add: map_add_def split: option.splits)
next
  have "[''Name'' \<mapsto> ''a'', ''Env'' \<mapsto> ''prod''] ++ [''Name'' \<mapsto> ''b'']
      = [''Name'' \<mapsto> ''b'', ''Env'' \<mapsto> ''prod'']"
    by (rule ext) (simp add: map_add_def)
  then show "get_all_tags
        \<lparr>extra_tags = [''Name'' \<mapsto> ''b''],
         conf = \<lparr>conf_region = r, conf_ami = a,
                 conf_tags = Some [''Name'' \<mapsto> ''a'', ''Env'' \<mapsto> ''prod'']\<rparr>,
         kw = k, instance_attr = i\<rparr>
       = Inr [''Name'' \<mapsto> ''b'', ''Env'' \<mapsto> ''prod'']"
    by (simp add: get_all_tags_def)
qed

theorem get_all_tags_merge_witness:
  "conf_tags (conf (example_launcher ''b'')) = Some [''Name'' \<mapsto> ''a'', ''Env'' \<mapsto> ''prod'']
   \<and> (case get_all_tags (example_launcher ''b'') of
         Inl e \<Rightarrow> False
       | Inr merged \<Rightarrow> merged ''Name'' = Some ''b'' \<and> merged ''Env'' = Some ''prod''
                        \<and> merged ''Role'' = None)"
proof -
  have c: "conf_tags (conf (example_launcher ''b'')) = Some [''Name'' \<mapsto> ''a'', ''Env'' \<mapsto> ''prod'']"
    by (simp add: example_launcher_def)
  have e: "extra_tags (example_launcher ''b'') = [''Name'' \<mapsto> ''b'']"
    by (simp add: example_launcher_def)
  from get_all_tags_merge [of "example_launcher ''b''" "[''Name'' \<mapsto> ''a'', ''Env'' \<mapsto> ''prod'']"] c
  obtain merged where m: "get_all_tags (example_launcher ''b'') = Inr merged"
    "\<forall>k. merged k = (case extra_tags (example_launcher ''b'') k of Some v \<Rightarrow> Some v
         | None \<Rightarrow> [''Name'' \<mapsto> ''a'', ''Env'' \<mapsto> ''prod''] k)"
    by blast
  from m(2) have "merged ''Name'' = Some ''b''" "merged ''Env'' = Some ''prod''" "merged ''Role'' = None"
    by (simp_all add: e)
  with c m(1) show ?thesis by simp
qed

section \<open>Lookup by tags\<close>

text \<open>
  The check of line 194: when \<^verbatim>\<open>get_all_instances\<close> returns no reservation,
  \<^verbatim>\<open>get_by_tagvalue\<close> raises \<^verbatim>\<open>LookupError\<close>; when it returns normally, some reservation
  was returned and the result holds the instances of the reservations.
\<close>

lemma get_by_tagvalue_no_reservations:
  assumes "cloud env (clock w) (region_or_default (settings env) region) = Some c"
  shows "(get_all_instances c (ByFilters (tag_filters tags)) = Inr [] \<longrightarrow>
           fst (get_by_tagvalue env tags region w) = Inl (LookupError NoInstancesWithTags))
    \<and> (\<forall>insts. fst (get_by_tagvalue env tags region w) = Inr insts \<longrightarrow>
          (\<exists>rs. get_all_instances c (ByFilters (tag_filters tags)) = Inr rs \<and> rs \<noteq> []
                \<and> insts = concat (map instances rs)))"
  using assms
  by (auto simp: get_by_tagvalue_def connect_to_region_def Let_def split: sum.splits)

text \<open>
  C9. The claim: when a query by tags finds no instance record, \<^verbatim>\<open>get_by_tagvalue\<close>
  raises \<^verbatim>\<open>LookupError\<close>, and an empty result never counts as success; the docstring
  promises \<^verbatim>\<open>LookupError\<close> if no matching instance was found. The code tests only the
  number of reservations. When the query answers with one reservation that holds
  no instance, \<^verbatim>\<open>get_by_tagvalue\<close> returns the empty list normally.
\<close>

theorem get_by_tagvalue_hollow_success:
  "get_all_instances hollow_connection (ByFilters (tag_filters [''role'' \<mapsto> ''web'']))
     = Inr [\<lparr>instances = []\<rparr>]
   \<and> fst (get_by_tagvalue hollow_env [''role'' \<mapsto> ''web''] None (initial_world [])) = Inr []"
  by (simp add: get_by_tagvalue_def connect_to_region_def region_or_default_def
      hollow_env_def hollow_connection_def emit_def initial_world_def Let_def)

section \<open>Waiting on a batch\<close>

lemma wait_for_running_state_many_append:
  assumes "wait_for_running_state_many env before kwargs w = (Inr (), w1)"
  shows "wait_for_running_state_many env (before @ rest) kwargs w
       = wait_for_running_state_many env rest kwargs w1"
  using assms
proof (induction before arbitrary: w)
  case Nil
  then show ?case by simp
next
  case (Cons l ls)
  then show ?case
    by (auto split: option.splits prod.splits sum.splits)
qed

lemma batch_timeout_run:
  "wait_for_running_state_many stuck_env [launched ''a'' ''i-a'', launched ''b'' ''i-b''] one_poll
     (world_with [1] [])
   = (Inl (WaitForStateError ''running'' 1),
      \<lparr>clock = 1,
       log = [PrintWaiting ''i-a'' ''running'' 1, Connect (Some ''us-east-1''),
              PrintNextPoll ''pending'' 1 1 ''running'' 1, Sleep 1],
       stdin = [],
       lists = (\<lambda>_. [])(DEFAULT_sleep_intervals := [15, 5], 1 := [1])\<rparr>)"
  by (simp add: launch_defs run_defs)

text \<open>
  C5 as stated fails. With two launched instances that stay \<^verbatim>\<open>pending\<close> and one poll
  of one second each, the timeout of the first ends the batch: the log holds the
  wait for \<^verbatim>\<open>i-a\<close> and nothing for \<^verbatim>\<open>i-b\<close>.
\<close>

theorem wait_for_running_state_many_skips_rest:
  "fst (wait_for_running_state_many stuck_env [launched ''a'' ''i-a'', launched ''b'' ''i-b'']
          one_poll (world_with [1] []))
     = Inl (WaitForStateError ''running'' 1)
   \<and> log (snd (wait_for_running_state_many stuck_env [launched ''a'' ''i-a'', launched ''b'' ''i-b'']
          one_poll (world_with [1] [])))
     = [PrintWaiting ''i-a'' ''running'' 1, Connect (Some ''us-east-1''),
        PrintNextPoll ''pending'' 1 1 ''running'' 1, Sleep 1]"
  unfolding batch_timeout_run by simp

text \<open>
  C5, amended. \<^verbatim>\<open>wait_for_running_state_many\<close> waits on the launched instances in
  sequence order, and an exception raised while it waits on one of them (a
  \<^verbatim>\<open>WaitForStateError\<close> among them) is not caught: it ends the batch wait there, with
  that exception and in the state that the failed wait left, so the instances
  after it are not waited on.
\<close>

theorem wait_for_running_state_many_stops:
  assumes "wait_for_running_state_many env before kwargs w = (Inr (), w1)"
  shows "wait_for_running_state_many env (before @ rest) kwargs w
           = wait_for_running_state_many env rest kwargs w1
    \<and> (instance_attr launcher = Some inst
         \<and> wait_for_running_state env (inst_id inst) kwargs w1 = (Inl e, w2)
        \<longrightarrow> wait_for_running_state_many env (before @ launcher # rest) kwargs w = (Inl e, w2))"
  using wait_for_running_state_many_append [OF assms, of rest]
    wait_for_running_state_many_append [OF assms, of "launcher # rest"]
  by simp

theorem wait_for_running_state_many_stops_witness:
  "wait_for_running_state_many stuck_env [] one_poll (world_with [1] []) = (Inr (), world_with [1] [])
   \<and> instance_attr (launched ''a'' ''i-a'') = Some \<lparr>inst_id = ''i-a'', inst_state = ''pending''\<rparr>
   \<and> fst (wait_for_running_state stuck_env ''i-a'' one_poll (world_with [1] []))
       = Inl (WaitForStateError ''running'' 1)
   \<and> wait_for_running_state_many stuck_env ([] @ launched ''a'' ''i-a'' # [launched ''b'' ''i-b''])
        one_poll (world_with [1] [])
       = (Inl (WaitForStateError ''running'' 1),
          snd (wait_for_running_state stuck_env ''i-a'' one_poll (world_with [1] [])))"
proof -
  have b: "wait_for_running_state_many stuck_env [] one_poll (world_with [1] [])
      = (Inr (), world_with [1] [])"
    by simp
  have i: "instance_attr (launched ''a'' ''i-a'') = Some \<lparr>inst_id = ''i-a'', inst_state = ''pending''\<rparr>"
    by (simp add: launched_def)
  have f: "fst (wait_for_running_state stuck_env ''i-a'' one_poll (world_with [1] []))
       = Inl (WaitForStateError ''running'' 1)"
    by (simp add: launch_defs run_defs)
  then have r: "wait_for_running_state stuck_env
        (inst_id \<lparr>inst_id = ''i-a'', inst_state = ''pending''\<rparr>) one_poll (world_with [1] [])
      = (Inl (WaitForStateError ''running'' 1),
         snd (wait_for_running_state stuck_env ''i-a'' one_poll (world_with [1] [])))"
    by (simp add: prod_eq_iff)
  from wait_for_running_state_many_stops [OF b, of "[launched ''b'' ''i-b'']" "launched ''a'' ''i-a''"
      "\<lparr>inst_id = ''i-a'', inst_state = ''pending''\<rparr>" "WaitForStateError ''running'' 1"
      "snd (wait_for_running_state stuck_env ''i-a'' one_poll (world_with [1] []))"] i r f
  show ?thesis by simp
qed

section \<open>Confirming a batch\<close>

lemma lower_char_y: "lower_char x = CHR ''y'' \<longleftrightarrow> x = CHR ''y'' \<or> x = CHR ''Y''"
proof -
  have c: "\<And>a b. a = b \<longleftrightarrow> (of_char a :: nat) = of_char b" by simp
  have lt: "(of_char x :: nat) < 256" by simp
  have "(of_char (lower_char x) :: nat) = 121 \<longleftrightarrow> (of_char x :: nat) = 121 \<or> (of_char x :: nat) = 89"
    using lt by (auto simp: lower_char_def)
  then show ?thesis
    by (simp add: c [of _ "CHR ''y''"] c [of _ "CHR ''Y''"])
qed

lemma lower_y: "lower s = ''y'' \<longleftrightarrow> s = ''y'' \<or> s = ''Y''"
  by (cases s) (auto simp: lower_def lower_char_y)

lemma raw_input_line:
  "stdin w = line # rest \<Longrightarrow> raw_input p w = (Inr line, (emit (Prompt p) w)\<lparr>stdin := rest\<rparr>)"
  by (simp add: raw_input_def)

lemma private_confirm_line:
  assumes "stdin w = line # rest"
  shows "private_confirm q w =
     (if line = ''y'' \<or> line = ''Y'' then (Inr (), (emit (Prompt (q @ '' [y/N]? '')) w)\<lparr>stdin := rest\<rparr>)
      else (Inl SystemExit, emit (Abort ''Aborted'') ((emit (Prompt (q @ '' [y/N]? '')) w)\<lparr>stdin := rest\<rparr>)))"
  using lower_y [of line]
  by (auto simp: private_confirm_def raw_input_line [OF assms] abort_def)

lemma print_launchers_world:
  "stdin (snd (print_launchers ls w)) = stdin w
   \<and> filter is_launch (log (snd (print_launchers ls w))) = filter is_launch (log w)
   \<and> (\<exists>es. log (snd (print_launchers ls w)) = log w @ es)"
proof (induction ls arbitrary: w)
  case Nil
  then show ?case by simp
next
  case (Cons l ls)
  show ?case
  proof (cases "prettyformat l")
    case (Inl e)
    then show ?thesis by (simp add: Let_def)
  next
    case (Inr p)
    from Cons.IH [of "emit (PrintLauncher p) (emit (Print []) w)"]
    show ?thesis using Inr by (auto simp: Let_def)
  qed
qed

lemma print_launchers_ok:
  "\<forall>l\<in>set ls. conf_tags (conf l) \<noteq> None \<Longrightarrow> fst (print_launchers ls w) = Inr ()"
proof (induction ls arbitrary: w)
  case Nil
  then show ?case by simp
next
  case (Cons l ls)
  then obtain t where "conf_tags (conf l) = Some t" by auto
  then obtain p where "prettyformat l = Inr p"
    by (simp add: prettyformat_def get_all_tags_def)
  with Cons show ?case by (simp add: Let_def)
qed

lemma confirm_many_cases:
  obtains w2 where "stdin w2 = stdin w"
    and "filter is_launch (log w2) = filter is_launch (log w)"
    and "\<exists>es. log w2 = log w @ es"
    and "confirm_many ls w =
      (case print_launchers ls w2 of
         (Inl e, w3) \<Rightarrow> (Inl e, w3)
       | (Inr _, w3) \<Rightarrow>
           private_confirm ''Create instances'' (emit (Print (replicate 80 CHR ''-'')) w3))"
proof -
  show ?thesis
    by (rule that [of "emit (Print (replicate 80 CHR ''-''))
      (emit (PrintFill (''Are you sure you want to launch (create) the following new instances ''
                                @ ''with the following settings and tags?'') 80) w)"])
       (simp_all add: confirm_many_def Let_def)
qed

lemma confirm_many_world:
  "filter is_launch (log (snd (confirm_many ls w))) = filter is_launch (log w)
   \<and> (\<exists>es. log (snd (confirm_many ls w)) = log w @ es)"
proof -
  obtain w2 where w2: "filter is_launch (log w2) = filter is_launch (log w)"
    "\<exists>es. log w2 = log w @ es"
    and c: "confirm_many ls w =
      (case print_launchers ls w2 of
         (Inl e, w3) \<Rightarrow> (Inl e, w3)
       | (Inr _, w3) \<Rightarrow>
           private_confirm ''Create instances'' (emit (Print (replicate 80 CHR ''-'')) w3))"
    by (rule confirm_many_cases)
  obtain r w3 where p: "print_launchers ls w2 = (r, w3)" by (cases "print_launchers ls w2")
  from print_launchers_world [of ls w2] p obtain es where
    w3: "filter is_launch (log w3) = filter is_launch (log w2)" "log w3 = log w2 @ es"
    by auto
  show ?thesis
  proof (cases r)
    case (Inl e)
    with p w3 w2 c show ?thesis by auto
  next
    case (Inr u)
    with p w3 w2 c show ?thesis
      by (auto simp: private_confirm_def raw_input_def abort_def split: list.splits)
  qed
qed

lemma confirm_many_line:
  assumes "stdin w = line # rest"
  shows "fst (confirm_many ls w) = Inr () \<Longrightarrow> line = ''y'' \<or> line = ''Y''"
    and "\<forall>l\<in>set ls. conf_tags (conf l) \<noteq> None \<Longrightarrow>
           fst (confirm_many ls w) =
             (if line = ''y'' \<or> line = ''Y'' then Inr () else Inl SystemExit)"
proof -
  obtain w2 where w2: "stdin w2 = stdin w"
    and c: "confirm_many ls w =
      (case print_launchers ls w2 of
         (Inl e, w3) \<Rightarrow> (Inl e, w3)
       | (Inr _, w3) \<Rightarrow>
           private_confirm ''Create instances'' (emit (Print (replicate 80 CHR ''-'')) w3))"
    by (rule confirm_many_cases)
  obtain r w3 where p: "print_launchers ls w2 = (r, w3)" by (cases "print_launchers ls w2")
  have "stdin w3 = stdin w2" using print_launchers_world [of ls w2] p by simp
  then have s3: "stdin (emit (Print (replicate 80 CHR ''-'')) w3) = line # rest"
    using assms w2 by simp
  note pc = private_confirm_line [OF s3, of "''Create instances''"]
  show "fst (confirm_many ls w) = Inr () \<Longrightarrow> line = ''y'' \<or> line = ''Y''"
    unfolding c p using pc by (cases r) (auto split: if_splits)
  assume "\<forall>l\<in>set ls. conf_tags (conf l) \<noteq> None"
  then have "r = Inr ()" using print_launchers_ok [of ls w2] p by simp
  then show "fst (confirm_many ls w) =
             (if line = ''y'' \<or> line = ''Y'' then Inr () else Inl SystemExit)"
    unfolding c p using pc by simp
qed

lemma launch_many_confirmed_run:
  "fst (launch_many stuck_env [example_launcher ''a'', example_launcher ''b''] one_poll
          (world_with [1] [''y'']))
     = Inl (WaitForStateError ''running'' 1)
   \<and> filter is_launch (log (snd (snd (launch_many stuck_env
          [example_launcher ''a'', example_launcher ''b''] one_poll (world_with [1] [''y''])))))
     = [RunInstances ''ami-1'' (kw (example_launcher ''a'')),
        RunInstances ''ami-1'' (kw (example_launcher ''b''))]"
  by (simp add: launch_defs run_defs)

text \<open>
  C6. The line that the operator enters is taken as a yes exactly when it is
  \<^verbatim>\<open>y\<close> or \<^verbatim>\<open>Y\<close>. For any other line \<^verbatim>\<open>_confirm\<close> aborts, \<^verbatim>\<open>confirm_many\<close> does not return
  normally (it aborts, when every launcher's configuration has its tags to print),
  and in the documented sequence of confirm, run and wait no launch call is made
  for any launcher of the batch.
\<close>

theorem confirm_many_only_y:
  assumes "stdin w = line # rest"
  shows "((fst (private_confirm question w) = Inr ()) \<longleftrightarrow> (line = ''y'' \<or> line = ''Y''))
    \<and> ((\<forall>l\<in>set launchers. conf_tags (conf l) \<noteq> None) \<longrightarrow>
          ((fst (confirm_many launchers w) = Inr ()) \<longleftrightarrow> (line = ''y'' \<or> line = ''Y'')))
    \<and> (line \<noteq> ''y'' \<and> line \<noteq> ''Y'' \<longrightarrow>
          fst (private_confirm question w) = Inl SystemExit
          \<and> fst (confirm_many launchers w) \<noteq> Inr ()
          \<and> ((\<forall>l\<in>set launchers. conf_tags (conf l) \<noteq> None) \<longrightarrow>
                fst (confirm_many launchers w) = Inl SystemExit)
          \<and> fst (launch_many env launchers kwargs w) \<noteq> Inr ()
          \<and> filter is_launch (new_events w (snd (snd (launch_many env launchers kwargs w)))) = [])"
proof (intro conjI impI)
  show "(fst (private_confirm question w) = Inr ()) \<longleftrightarrow> (line = ''y'' \<or> line = ''Y'')"
    by (simp add: private_confirm_line [OF assms])
next
  assume "\<forall>l\<in>set launchers. conf_tags (conf l) \<noteq> None"
  then show "(fst (confirm_many launchers w) = Inr ()) \<longleftrightarrow> (line = ''y'' \<or> line = ''Y'')"
    using confirm_many_line(2) [OF assms, of launchers] by simp
next
  assume n: "line \<noteq> ''y'' \<and> line \<noteq> ''Y''"
  then show "fst (private_confirm question w) = Inl SystemExit"
    by (simp add: private_confirm_line [OF assms])
  from n show c: "fst (confirm_many launchers w) \<noteq> Inr ()"
    using confirm_many_line(1) [OF assms, of launchers] by blast
  obtain r w1 where cm: "confirm_many launchers w = (r, w1)" by (cases "confirm_many launchers w")
  with c obtain e where r: "r = Inl e" by (cases r) auto
  from cm r show "fst (launch_many env launchers kwargs w) \<noteq> Inr ()"
    by (simp add: launch_many_def)
  from confirm_many_world [of launchers w] cm obtain es where
    "filter is_launch (log w1) = filter is_launch (log w)" "log w1 = log w @ es"
    by auto
  then have "filter is_launch (new_events w w1) = []"
    by (simp add: new_events_def)
  with cm r show "filter is_launch (new_events w (snd (snd (launch_many env launchers kwargs w)))) = []"
    by (simp add: launch_many_def)
next
  assume "line \<noteq> ''y'' \<and> line \<noteq> ''Y''" "\<forall>l\<in>set launchers. conf_tags (conf l) \<noteq> None"
  then show "fst (confirm_many launchers w) = Inl SystemExit"
    using confirm_many_line(2) [OF assms, of launchers] by simp
qed

theorem confirm_many_only_y_witness:
  "stdin (world_with [1] [''yes'']) = [''yes'']
   \<and> fst (private_confirm ''Create instances'' (world_with [1] [''yes''])) = Inl SystemExit
   \<and> fst (confirm_many [example_launcher ''a'', example_launcher ''b''] (world_with [1] [''yes'']))
       = Inl SystemExit
   \<and> filter is_launch (new_events (world_with [1] [''yes''])
        (snd (snd (launch_many stuck_env [example_launcher ''a'', example_launcher ''b''] one_poll
           (world_with [1] [''yes''])))))
       = []
   \<and> stdin (world_with [1] [''Y'']) = [''Y'']
   \<and> fst (confirm_many [example_launcher ''a'', example_launcher ''b''] (world_with [1] [''Y'']))
       = Inr ()"
proof -
  have s: "stdin (world_with [1] [''yes'']) = ''yes'' # []" "stdin (world_with [1] [''Y'']) = ''Y'' # []"
    by (simp_all add: world_with_def initial_world_def)
  have t: "\<forall>l\<in>set [example_launcher ''a'', example_launcher ''b'']. conf_tags (conf l) \<noteq> None"
    by (simp add: example_launcher_def)
  from confirm_many_only_y [OF s(1), of "''Create instances''"
      "[example_launcher ''a'', example_launcher ''b'']" stuck_env one_poll]
    confirm_many_only_y [OF s(2), of "''Create instances''"
      "[example_launcher ''a'', example_launcher ''b'']" stuck_env one_poll] s t
  show ?thesis by simp
qed

end
